theory Spec2Isabelle
  imports Complex_Main "HOL-Library.AList"
begin

section \<open>Data model of the relay (app.py)\<close>

text \<open>
  Event and request payloads are decoded JSON. Python's \<open>int\<close> is \<^typ>\<open>int\<close>;
  Python's \<open>float\<close> (the clock, expiry times, remaining seconds) is read as a
  \<^typ>\<open>real\<close>: the code only adds the constant TTL to a clock reading, subtracts two
  clock readings and compares them.
\<close>

datatype json =
    JNull
  | JBool bool
  | JInt int
  | JFloat real
  | JStr string
  | JArr "json list"
  | JObj "(string \<times> json) list"

text \<open>The payload of an event or request: a JSON object, as a Python dict in key order.\<close>

type_synonym payload = "(string \<times> json) list"

type_synonym sid = string

text \<open>
  What a handler can raise: \<open>KeyError\<close> on a missing string key of a dict,
  \<open>KeyError: 0\<close> from subscripting a dict with \<open>0\<close>, and \<open>TypeError\<close> on an
  unhashable value used as a key.
\<close>

datatype error = KeyError string | KeyErrorInt int | TypeError

text \<open>One entry of \<open>active_rooms\<close>: \<open>{'expiry': timestamp, 'users': count}\<close>.\<close>

record room =
  expiry :: real
  users :: int

text \<open>
  \<open>active_rooms\<close> is a Python dict from token to room entry. It is kept as an
  association list in insertion order, since the sweeper walks \<open>list(active_rooms.keys())\<close>;
  \<open>AList.update\<close> overwrites an existing key in place and appends a new one, and
  \<open>AList.delete\<close> removes a key, exactly as assignment and \<open>del\<close> on a dict do.
  A well-formed dict has distinct keys.
\<close>

type_synonym registry = "(string \<times> room) list"

definition wf_registry :: "registry \<Rightarrow> bool" where
  "wf_registry rs = distinct (map fst rs)"

text \<open>
  The transport layer's grouping (Flask-SocketIO rooms) is the second piece of state:
  for each group name the set of connections currently in it. \<open>join_room\<close> and
  \<open>leave_room\<close> change it for the calling connection. The transport itself puts every
  connection, when it connects, into the group named by its own session id, and takes it
  out of every group when it disconnects.
\<close>

record state =
  active_rooms :: registry
  groups :: "string \<Rightarrow> sid set"

text \<open>
  A call of \<open>emit(event, data, room=r, include_self=b)\<close>. The fields record the
  arguments of the call; \<open>skip_sid\<close> is the calling connection when
  \<open>include_self=False\<close> was passed and \<open>None\<close> otherwise.
\<close>

record emission =
  ev_name :: string
  ev_data :: json
  ev_room :: json
  skip_sid :: "sid option"

definition ROOM_TTL :: int where
  "ROOM_TTL = 600"

definition init_state :: state where
  "init_state = \<lparr>active_rooms = [], groups = (\<lambda>_. {})\<rparr>"

subsection \<open>Python primitives used by the handlers\<close>

text \<open>\<open>data[k]\<close>: raises \<open>KeyError\<close> when the key is missing.\<close>

definition getitem :: "payload \<Rightarrow> string \<Rightarrow> error + json" where
  "getitem data k = (case map_of data k of None \<Rightarrow> Inl (KeyError k) | Some v \<Rightarrow> Inr v)"

text \<open>\<open>data.get(k)\<close>: \<open>None\<close> when the key is missing.\<close>

definition get_or_none :: "payload \<Rightarrow> string \<Rightarrow> json" where
  "get_or_none data k = (case map_of data k of None \<Rightarrow> JNull | Some v \<Rightarrow> v)"

text \<open>
  \<open>token in active_rooms\<close>: the keys are strings (they are only ever inserted by
  \<open>generate_token\<close>), so a hashable value that is not a string is never a key; a list or
  a dict is unhashable and the test raises \<open>TypeError\<close>. The second component is the
  entry found.
\<close>

definition lookup_token :: "registry \<Rightarrow> json \<Rightarrow> error + (string \<times> room) option" where
  "lookup_token rs tok =
     (case tok of
        JStr t \<Rightarrow> (case map_of rs t of None \<Rightarrow> Inr None | Some r \<Rightarrow> Inr (Some (t, r)))
      | JArr _ \<Rightarrow> Inl TypeError
      | JObj _ \<Rightarrow> Inl TypeError
      | _ \<Rightarrow> Inr None)"

text \<open>Truthiness of a value, as in \<open>if sender_sid:\<close>.\<close>

fun truthy :: "json \<Rightarrow> bool" where
  "truthy JNull = False"
| "truthy (JBool b) = b"
| "truthy (JInt i) = (i \<noteq> 0)"
| "truthy (JFloat x) = (x \<noteq> 0)"
| "truthy (JStr s) = (s \<noteq> [])"
| "truthy (JArr xs) = (xs \<noteq> [])"
| "truthy (JObj kvs) = (kvs \<noteq> [])"

text \<open>
  The transport's \<open>emit\<close> is library code; the handlers reach it with a room taken from
  the client's payload, so its behaviour on every JSON value matters. It is modelled from
  Flask-SocketIO's \<open>emit\<close> and python-socketio's \<open>get_participants\<close>:
  \<^item> a room that is \<open>None\<close> is replaced by the caller's own session id;
  \<^item> any other falsy room (\<open>''\<close>, \<open>0\<close>, \<open>False\<close>, \<open>[]\<close>, \<open>{}\<close>) is lost in
    \<open>to or room\<close> and the event goes to the whole namespace;
  \<^item> a non-empty dict is subscripted with \<open>0\<close>, which raises \<open>KeyError: 0\<close>;
  \<^item> a non-empty list is a list of rooms and the event goes to the union of their members;
    an unhashable element raises \<open>TypeError\<close> in the lookup, and \<open>None\<close> as an element
    names the whole namespace;
  \<^item> any other value is looked up as one group name; only strings name groups with members.
  The connection in \<open>skip_sid\<close> is left out of every delivery.
\<close>

fun unhashable :: "json \<Rightarrow> bool" where
  "unhashable (JArr _) = True"
| "unhashable (JObj _) = True"
| "unhashable _ = False"

definition room_error :: "json \<Rightarrow> error option" where
  "room_error room =
     (if \<not> truthy room then None
      else case room of
             JObj _ \<Rightarrow> Some (KeyErrorInt 0)
           | JArr xs \<Rightarrow> (if list_ex unhashable xs then Some TypeError else None)
           | _ \<Rightarrow> None)"

text \<open>
  \<open>emit(name, data, room=room, include_self=include_self)\<close> called in a handler that
  runs for the connection \<open>sid\<close>: it raises, or makes the emission recorded here.
\<close>

definition emit :: "sid \<Rightarrow> string \<Rightarrow> json \<Rightarrow> json \<Rightarrow> bool \<Rightarrow> error + emission" where
  "emit sid name d room include_self =
     (case room_error room of
        Some e \<Rightarrow> Inl e
      | None \<Rightarrow>
          Inr \<lparr>ev_name = name, ev_data = d,
               ev_room = (case room of JNull \<Rightarrow> JStr sid | _ \<Rightarrow> room),
               skip_sid = (if include_self then None else Some sid)\<rparr>)"

text \<open>All connections of the namespace: those that are in the group of their own id.\<close>

definition everyone :: "(string \<Rightarrow> sid set) \<Rightarrow> sid set" where
  "everyone g = {c. c \<in> g c}"

text \<open>The members of one group, by the key the transport looks up.\<close>

fun room_members :: "(string \<Rightarrow> sid set) \<Rightarrow> json \<Rightarrow> sid set" where
  "room_members g JNull = everyone g"
| "room_members g (JStr r) = g r"
| "room_members g _ = {}"

text \<open>The connections an emission is delivered to, given the grouping.\<close>

definition recipients :: "(string \<Rightarrow> sid set) \<Rightarrow> emission \<Rightarrow> sid set" where
  "recipients g e =
     (if \<not> truthy (ev_room e) then everyone g
      else case ev_room e of
             JArr xs \<Rightarrow> \<Union> (set (map (room_members g) xs))
           | _ \<Rightarrow> room_members g (ev_room e))
       - (case skip_sid e of None \<Rightarrow> {} | Some s \<Rightarrow> {s})"

section \<open>HTTP endpoints\<close>

text \<open>
  \<open>generate_token\<close>: the token drawn by \<open>secrets.token_urlsafe(8)\<close> and the clock
  reading are parameters. Returns the new registry and the JSON response.
\<close>

definition generate_token :: "string \<Rightarrow> real \<Rightarrow> registry \<Rightarrow> registry \<times> json" where
  "generate_token token now rs =
     (AList.update token \<lparr>expiry = now + real_of_int ROOM_TTL, users = 0\<rparr> rs,
      JObj [(''token'', JStr token), (''expires_in'', JInt ROOM_TTL)])"

definition validate_token :: "payload \<Rightarrow> real \<Rightarrow> registry \<Rightarrow> error + json" where
  "validate_token data now rs =
     (let token = get_or_none data ''token'' in
      case lookup_token rs token of
        Inl e \<Rightarrow> Inl e
      | Inr None \<Rightarrow> Inr (JObj [(''valid'', JBool False)])
      | Inr (Some (t, r)) \<Rightarrow>
          (let remaining = expiry r - now in
           if remaining > 0
           then Inr (JObj [(''valid'', JBool True), (''remaining'', JFloat remaining)])
           else Inr (JObj [(''valid'', JBool False)])))"

section \<open>Socket event handlers\<close>

text \<open>
  A handler runs for the connection \<open>sid\<close> on the payload \<open>data\<close> in a state, and
  either raises or returns the new state with the emissions it made, in order. In
  \<open>on_join\<close>, \<open>on_leave\<close> and \<open>handle_message\<close> the room of the emission is a key
  of the registry, a string, on which \<open>emit\<close> does not raise; the emission is written
  out there.
\<close>

type_synonym outcome = "error + (state \<times> emission list)"

definition on_join :: "sid \<Rightarrow> payload \<Rightarrow> state \<Rightarrow> outcome" where
  "on_join sid data st =
     (case getitem data ''token'' of
        Inl e \<Rightarrow> Inl e
      | Inr token \<Rightarrow>
          (case lookup_token (active_rooms st) token of
             Inl e \<Rightarrow> Inl e
           | Inr None \<Rightarrow> Inr (st, [])
           | Inr (Some (t, r)) \<Rightarrow>
               (let n = users r + 1 in
                Inr (\<lparr>active_rooms = AList.update t (r\<lparr>users := n\<rparr>) (active_rooms st),
                       groups = (groups st)(t := insert sid (groups st t))\<rparr>,
                     [\<lparr>ev_name = ''update_status'', ev_data = JObj [(''count'', JInt n)],
                       ev_room = token, skip_sid = None\<rparr>]))))"

definition on_leave :: "sid \<Rightarrow> payload \<Rightarrow> state \<Rightarrow> outcome" where
  "on_leave sid data st =
     (case getitem data ''token'' of
        Inl e \<Rightarrow> Inl e
      | Inr token \<Rightarrow>
          (case lookup_token (active_rooms st) token of
             Inl e \<Rightarrow> Inl e
           | Inr None \<Rightarrow> Inr (st, [])
           | Inr (Some (t, r)) \<Rightarrow>
               (let n = max 0 (users r - 1) in
                Inr (\<lparr>active_rooms = AList.update t (r\<lparr>users := n\<rparr>) (active_rooms st),
                       groups = (groups st)(t := groups st t - {sid})\<rparr>,
                     [\<lparr>ev_name = ''update_status'', ev_data = JObj [(''count'', JInt n)],
                       ev_room = token, skip_sid = None\<rparr>]))))"

definition handle_message :: "sid \<Rightarrow> payload \<Rightarrow> state \<Rightarrow> outcome" where
  "handle_message sid data st =
     (case getitem data ''token'' of
        Inl e \<Rightarrow> Inl e
      | Inr token \<Rightarrow>
          (case lookup_token (active_rooms st) token of
             Inl e \<Rightarrow> Inl e
           | Inr None \<Rightarrow> Inr (st, [])
           | Inr (Some (t, r)) \<Rightarrow>
               Inr (st, [\<lparr>ev_name = ''message'', ev_data = JObj data,
                          ev_room = token, skip_sid = None\<rparr>])))"

definition confirm_delivery :: "sid \<Rightarrow> payload \<Rightarrow> state \<Rightarrow> outcome" where
  "confirm_delivery sid data st =
     (let sender_sid = get_or_none data ''sender_socket_id'' in
      if truthy sender_sid
      then (case getitem data ''msg_id'' of
              Inl e \<Rightarrow> Inl e
            | Inr m \<Rightarrow>
                (case emit sid ''msg_delivered'' (JObj [(''msg_id'', m)]) sender_sid True of
                   Inl e \<Rightarrow> Inl e
                 | Inr em \<Rightarrow> Inr (st, [em])))
      else Inr (st, []))"

definition handle_typing :: "sid \<Rightarrow> payload \<Rightarrow> state \<Rightarrow> outcome" where
  "handle_typing sid data st =
     (case getitem data ''token'' of
        Inl e \<Rightarrow> Inl e
      | Inr token \<Rightarrow>
          (case emit sid ''display_typing'' (JObj []) token False of
             Inl e \<Rightarrow> Inl e
           | Inr em \<Rightarrow> Inr (st, [em])))"

definition handle_stop_typing :: "sid \<Rightarrow> payload \<Rightarrow> state \<Rightarrow> outcome" where
  "handle_stop_typing sid data st =
     (case getitem data ''token'' of
        Inl e \<Rightarrow> Inl e
      | Inr token \<Rightarrow>
          (case emit sid ''hide_typing'' (JObj []) token False of
             Inl e \<Rightarrow> Inl e
           | Inr em \<Rightarrow> Inr (st, [em])))"

text \<open>\<open>ping_check\<close> returns the clock reading as its acknowledgement.\<close>

definition ping_check :: "real \<Rightarrow> state \<Rightarrow> state \<times> json" where
  "ping_check now st = (st, JFloat now)"

definition share_metrics :: "sid \<Rightarrow> payload \<Rightarrow> state \<Rightarrow> outcome" where
  "share_metrics sid data st =
     (case getitem data ''token'' of
        Inl e \<Rightarrow> Inl e
      | Inr token \<Rightarrow>
          (case getitem data ''ping'' of
             Inl e \<Rightarrow> Inl e
           | Inr p \<Rightarrow>
               (case emit sid ''update_peer_metrics'' (JObj [(''ping'', p)]) token False of
                  Inl e \<Rightarrow> Inl e
                | Inr em \<Rightarrow> Inr (st, [em]))))"

section \<open>Expiry sweeper\<close>

text \<open>
  One pass of the body of \<open>cleanup_rooms\<close> after its \<open>time.sleep(10)\<close>: the
  clock is read once, then the loop walks the keys the dict had at that moment. The pass
  returns the registry it leaves and the trace of what it did, in order: the emission of
  \<open>room_expired\<close> to the token's group, then the deletion of the entry.
  \<open>active_rooms[token]\<close> raises \<open>KeyError\<close> on a missing key.
\<close>

datatype action = Emit emission | Del string

definition room_expired :: "string \<Rightarrow> emission" where
  "room_expired token =
     \<lparr>ev_name = ''room_expired'', ev_data = JNull, ev_room = JStr token, skip_sid = None\<rparr>"

fun cleanup_loop ::
  "real \<Rightarrow> string list \<Rightarrow> registry \<Rightarrow> action list \<Rightarrow> error + (registry \<times> action list)" where
  "cleanup_loop current_time [] rs tr = Inr (rs, tr)"
| "cleanup_loop current_time (token # ts) rs tr =
     (case map_of rs token of
        None \<Rightarrow> Inl (KeyError token)
      | Some r \<Rightarrow>
          if current_time > expiry r
          then cleanup_loop current_time ts (AList.delete token rs)
                 (tr @ [Emit (room_expired token), Del token])
          else cleanup_loop current_time ts rs tr)"

definition cleanup_pass :: "real \<Rightarrow> registry \<Rightarrow> error + (registry \<times> action list)" where
  "cleanup_pass current_time rs = cleanup_loop current_time (map fst rs) rs []"

section \<open>Runs of the server\<close>

text \<open>
  What the server receives, one at a time: the two HTTP requests, the socket events with
  the connection they come from, and the passes of the sweeper. Clock readings and the
  token drawn are part of the event. A client connecting or disconnecting runs no code of
  the application (it registers no handler for either), only the transport's bookkeeping
  of groups.
\<close>

datatype event =
    GenerateToken string real
  | ValidateToken payload real
  | Join sid payload
  | Leave sid payload
  | Message sid payload
  | ConfirmDelivery sid payload
  | Typing sid payload
  | StopTyping sid payload
  | PingCheck real
  | ShareMetrics sid payload
  | Sweep real
  | Connect sid
  | Disconnect sid

text \<open>The state a handler leaves: a handler that raises has changed nothing before.\<close>

definition state_after :: "state \<Rightarrow> outcome \<Rightarrow> state" where
  "state_after st res = (case res of Inl _ \<Rightarrow> st | Inr (st', _) \<Rightarrow> st')"

text \<open>
  The connections an outcome's emissions reach. Every handler emits after its
  \<open>join_room\<close> or \<open>leave_room\<close>, so delivery uses the grouping of the state it
  returns.
\<close>

definition delivered :: "outcome \<Rightarrow> sid set" where
  "delivered res =
     (case res of
        Inl _ \<Rightarrow> {}
      | Inr (st', out) \<Rightarrow> \<Union> (set (map (recipients (groups st')) out)))"

fun step :: "state \<Rightarrow> event \<Rightarrow> state" where
  "step st (GenerateToken token now) =
     st\<lparr>active_rooms := fst (generate_token token now (active_rooms st))\<rparr>"
| "step st (ValidateToken data now) = st"
| "step st (Join sid data) = state_after st (on_join sid data st)"
| "step st (Leave sid data) = state_after st (on_leave sid data st)"
| "step st (Message sid data) = state_after st (handle_message sid data st)"
| "step st (ConfirmDelivery sid data) = state_after st (confirm_delivery sid data st)"
| "step st (Typing sid data) = state_after st (handle_typing sid data st)"
| "step st (StopTyping sid data) = state_after st (handle_stop_typing sid data st)"
| "step st (PingCheck now) = fst (ping_check now st)"
| "step st (ShareMetrics sid data) = state_after st (share_metrics sid data st)"
| "step st (Sweep now) =
     (case cleanup_pass now (active_rooms st) of
        Inl _ \<Rightarrow> st
      | Inr (rs, _) \<Rightarrow> st\<lparr>active_rooms := rs\<rparr>)"
| "step st (Connect sid) = st\<lparr>groups := (groups st)(sid := insert sid (groups st sid))\<rparr>"
| "step st (Disconnect sid) = st\<lparr>groups := (\<lambda>r. groups st r - {sid})\<rparr>"

definition run :: "state \<Rightarrow> event list \<Rightarrow> state" where
  "run st evs = foldl step st evs"

section \<open>Auxiliary facts\<close>

lemmas handler_defs = on_join_def on_leave_def handle_message_def confirm_delivery_def
  handle_typing_def handle_stop_typing_def share_metrics_def getitem_def get_or_none_def
  lookup_token_def emit_def room_error_def

text \<open>Assignment to a dict key adds or replaces one entry and touches no other.\<close>

lemma update_set_cases:
  "x \<in> set (AList.update k v al) \<Longrightarrow> x = (k, v) \<or> x \<in> set al"
  by (induction al) (auto split: if_splits)

text \<open>
  The sweeper's loop only deletes: what it leaves was there before, unchanged.
\<close>

lemma cleanup_loop_map_of:
  "cleanup_loop now ks rs tr = Inr (rs', tr') \<Longrightarrow> map_of rs' t = Some r' \<Longrightarrow>
   map_of rs t = Some r'"
proof (induction ks arbitrary: rs tr)
  case Nil
  then show ?case by simp
next
  case (Cons k ks)
  show ?case
  proof (cases "map_of rs k")
    case None
    with Cons.prems show ?thesis by simp
  next
    case (Some r)
    show ?thesis
    proof (cases "now > expiry r")
      case True
      with Some Cons.prems(1)
      have "cleanup_loop now ks (AList.delete k rs) (tr @ [Emit (room_expired k), Del k])
              = Inr (rs', tr')" by simp
      from Cons.IH[OF this Cons.prems(2)] show ?thesis
        by (simp add: delete_conv' split: if_splits)
    next
      case False
      with Some Cons.prems(1) have "cleanup_loop now ks rs tr = Inr (rs', tr')" by simp
      from Cons.IH[OF this Cons.prems(2)] show ?thesis .
    qed
  qed
qed

lemma cleanup_loop_subset:
  "cleanup_loop now ks rs tr = Inr (rs', tr') \<Longrightarrow> set rs' \<subseteq> set rs"
proof (induction ks arbitrary: rs tr)
  case Nil
  then show ?case by simp
next
  case (Cons k ks)
  show ?case
  proof (cases "map_of rs k")
    case None
    with Cons.prems show ?thesis by simp
  next
    case (Some r)
    show ?thesis
    proof (cases "now > expiry r")
      case True
      with Some Cons.prems
      have "cleanup_loop now ks (AList.delete k rs) (tr @ [Emit (room_expired k), Del k])
              = Inr (rs', tr')" by simp
      from Cons.IH[OF this] show ?thesis by (auto simp: AList.delete_eq)
    next
      case False
      with Some Cons.prems have "cleanup_loop now ks rs tr = Inr (rs', tr')" by simp
      from Cons.IH[OF this] show ?thesis .
    qed
  qed
qed

text \<open>
  Message, typing, delivery confirmation and metrics handlers return the state they were
  given, whether they raise or not.
\<close>

lemma relay_state_same:
  "state_after st (handle_message sid data st) = st"
  "state_after st (handle_typing sid data st) = st"
  "state_after st (handle_stop_typing sid data st) = st"
  "state_after st (confirm_delivery sid data st) = st"
  "state_after st (share_metrics sid data st) = st"
  by (simp_all add: handle_message_def handle_typing_def handle_stop_typing_def
      confirm_delivery_def share_metrics_def getitem_def get_or_none_def lookup_token_def
      state_after_def Let_def split: sum.splits option.splits)

section \<open>Token gate of the relay handlers\<close>

text \<open>
  C1, as the code has it. The handlers for join, leave and message test
  \<open>token in active_rooms\<close>, that is presence in the registry; they never read the clock
  or the entry's expiry. When the token of the payload is not a key of the registry the
  handler returns the state unchanged and emits nothing; when it is a key, whatever its
  expiry, join increments the count, adds the connection to the token's group and
  broadcasts the new count, leave decrements (not below 0), removes the connection and
  broadcasts, and message broadcasts the payload verbatim.
\<close>

theorem relay_presence_gate:
  "map_of data ''token'' = Some tok \<longrightarrow>
     (tok = JStr t \<and> map_of (active_rooms st) t = None \<longrightarrow>
        lookup_token (active_rooms st) tok = Inr None) \<and>
     (lookup_token (active_rooms st) tok = Inr None \<longrightarrow>
        on_join sid data st = Inr (st, []) \<and>
        on_leave sid data st = Inr (st, []) \<and>
        handle_message sid data st = Inr (st, [])) \<and>
     (tok = JStr t \<and> map_of (active_rooms st) t = Some r \<longrightarrow>
        on_join sid data st =
          Inr (\<lparr>active_rooms = AList.update t (r\<lparr>users := users r + 1\<rparr>) (active_rooms st),
                 groups = (groups st)(t := insert sid (groups st t))\<rparr>,
               [\<lparr>ev_name = ''update_status'',
                 ev_data = JObj [(''count'', JInt (users r + 1))],
                 ev_room = JStr t, skip_sid = None\<rparr>]) \<and>
        on_leave sid data st =
          Inr (\<lparr>active_rooms =
                   AList.update t (r\<lparr>users := max 0 (users r - 1)\<rparr>) (active_rooms st),
                 groups = (groups st)(t := groups st t - {sid})\<rparr>,
               [\<lparr>ev_name = ''update_status'',
                 ev_data = JObj [(''count'', JInt (max 0 (users r - 1)))],
                 ev_room = JStr t, skip_sid = None\<rparr>]) \<and>
        handle_message sid data st =
          Inr (st, [\<lparr>ev_name = ''message'', ev_data = JObj data,
                     ev_room = JStr t, skip_sid = None\<rparr>]))"
proof (intro impI conjI)
  assume tok: "map_of data ''token'' = Some tok"
  show "lookup_token (active_rooms st) tok = Inr None"
    if "tok = JStr t \<and> map_of (active_rooms st) t = None"
    using that by (simp add: lookup_token_def)
  show "on_join sid data st = Inr (st, [])" if "lookup_token (active_rooms st) tok = Inr None"
    using that tok by (simp add: on_join_def getitem_def)
  show "on_leave sid data st = Inr (st, [])" if "lookup_token (active_rooms st) tok = Inr None"
    using that tok by (simp add: on_leave_def getitem_def)
  show "handle_message sid data st = Inr (st, [])"
    if "lookup_token (active_rooms st) tok = Inr None"
    using that tok by (simp add: handle_message_def getitem_def)
next
  assume tok: "map_of data ''token'' = Some tok"
    and pres: "tok = JStr t \<and> map_of (active_rooms st) t = Some r"
  then have l: "lookup_token (active_rooms st) tok = Inr (Some (t, r))"
    by (simp add: lookup_token_def)
  show "on_join sid data st =
          Inr (\<lparr>active_rooms = AList.update t (r\<lparr>users := users r + 1\<rparr>) (active_rooms st),
                 groups = (groups st)(t := insert sid (groups st t))\<rparr>,
               [\<lparr>ev_name = ''update_status'',
                 ev_data = JObj [(''count'', JInt (users r + 1))],
                 ev_room = JStr t, skip_sid = None\<rparr>])"
    using tok pres l by (simp add: on_join_def getitem_def Let_def)
  show "on_leave sid data st =
          Inr (\<lparr>active_rooms =
                   AList.update t (r\<lparr>users := max 0 (users r - 1)\<rparr>) (active_rooms st),
                 groups = (groups st)(t := groups st t - {sid})\<rparr>,
               [\<lparr>ev_name = ''update_status'',
                 ev_data = JObj [(''count'', JInt (max 0 (users r - 1)))],
                 ev_room = JStr t, skip_sid = None\<rparr>])"
    using tok pres l by (simp add: on_leave_def getitem_def Let_def)
  show "handle_message sid data st =
          Inr (st, [\<lparr>ev_name = ''message'', ev_data = JObj data,
                     ev_room = JStr t, skip_sid = None\<rparr>])"
    using tok pres l by (simp add: handle_message_def getitem_def)
qed

theorem relay_presence_gate_witness:
  "on_join ''c1'' [(''token'', JStr ''nope'')]
      \<lparr>active_rooms = [(''Zk3'', \<lparr>expiry = 600, users = 1\<rparr>)], groups = (\<lambda>_. {})\<rparr>
     = Inr (\<lparr>active_rooms = [(''Zk3'', \<lparr>expiry = 600, users = 1\<rparr>)], groups = (\<lambda>_. {})\<rparr>, []) \<and>
   on_leave ''c1'' [(''token'', JStr ''nope'')]
      \<lparr>active_rooms = [(''Zk3'', \<lparr>expiry = 600, users = 1\<rparr>)], groups = (\<lambda>_. {})\<rparr>
     = Inr (\<lparr>active_rooms = [(''Zk3'', \<lparr>expiry = 600, users = 1\<rparr>)], groups = (\<lambda>_. {})\<rparr>, []) \<and>
   handle_message ''c1'' [(''token'', JStr ''nope'')]
      \<lparr>active_rooms = [(''Zk3'', \<lparr>expiry = 600, users = 1\<rparr>)], groups = (\<lambda>_. {})\<rparr>
     = Inr (\<lparr>active_rooms = [(''Zk3'', \<lparr>expiry = 600, users = 1\<rparr>)], groups = (\<lambda>_. {})\<rparr>, []) \<and>
   on_join ''c1'' [(''token'', JStr ''Zk3'')]
      \<lparr>active_rooms = [(''Zk3'', \<lparr>expiry = 600, users = 1\<rparr>)], groups = (\<lambda>_. {})\<rparr>
     = Inr (\<lparr>active_rooms = [(''Zk3'', \<lparr>expiry = 600, users = 2\<rparr>)],
             groups = (\<lambda>_. {})(''Zk3'' := {''c1''})\<rparr>,
            [\<lparr>ev_name = ''update_status'', ev_data = JObj [(''count'', JInt 2)],
              ev_room = JStr ''Zk3'', skip_sid = None\<rparr>]) \<and>
   handle_message ''c1'' [(''token'', JStr ''Zk3''), (''msg'', JStr ''hi'')]
      \<lparr>active_rooms = [(''Zk3'', \<lparr>expiry = 600, users = 1\<rparr>)], groups = (\<lambda>_. {})\<rparr>
     = Inr (\<lparr>active_rooms = [(''Zk3'', \<lparr>expiry = 600, users = 1\<rparr>)], groups = (\<lambda>_. {})\<rparr>,
            [\<lparr>ev_name = ''message'',
              ev_data = JObj [(''token'', JStr ''Zk3''), (''msg'', JStr ''hi'')],
              ev_room = JStr ''Zk3'', skip_sid = None\<rparr>])"
  using relay_presence_gate
      [where data = "[(''token'', JStr ''nope'')]" and tok = "JStr ''nope''" and t = "''nope''"
         and st = "\<lparr>active_rooms = [(''Zk3'', \<lparr>expiry = 600, users = 1\<rparr>)], groups = (\<lambda>_. {})\<rparr>"
         and sid = "''c1''" and r = "\<lparr>expiry = 600, users = 1\<rparr>"]
    relay_presence_gate
      [where data = "[(''token'', JStr ''Zk3'')]" and tok = "JStr ''Zk3''" and t = "''Zk3''"
         and st = "\<lparr>active_rooms = [(''Zk3'', \<lparr>expiry = 600, users = 1\<rparr>)], groups = (\<lambda>_. {})\<rparr>"
         and sid = "''c1''" and r = "\<lparr>expiry = 600, users = 1\<rparr>"]
    relay_presence_gate
      [where data = "[(''token'', JStr ''Zk3''), (''msg'', JStr ''hi'')]" and tok = "JStr ''Zk3''"
         and t = "''Zk3''"
         and st = "\<lparr>active_rooms = [(''Zk3'', \<lparr>expiry = 600, users = 1\<rparr>)], groups = (\<lambda>_. {})\<rparr>"
         and sid = "''c1''" and r = "\<lparr>expiry = 600, users = 1\<rparr>"]
  by simp

text \<open>
  C1 as stated fails. A room created at time 0 is still in the registry at time 605, with
  its expiry (600) passed: validate reports it invalid, yet a join on it changes its
  member count and is broadcast. And after the sweeper has removed the room, a typing event
  of one former member still reaches the other: the typing handler makes no check of the
  token at all.
\<close>

theorem relay_validity_gate_counterexample:
  "active_rooms (run init_state [GenerateToken ''Zk3'' 0]) = [(''Zk3'', \<lparr>expiry = 600, users = 0\<rparr>)] \<and>
   validate_token [(''token'', JStr ''Zk3'')] 605 (active_rooms (run init_state [GenerateToken ''Zk3'' 0]))
     = Inr (JObj [(''valid'', JBool False)]) \<and>
   active_rooms (state_after (run init_state [GenerateToken ''Zk3'' 0])
       (on_join ''c1'' [(''token'', JStr ''Zk3'')] (run init_state [GenerateToken ''Zk3'' 0])))
     = [(''Zk3'', \<lparr>expiry = 600, users = 1\<rparr>)] \<and>
   delivered (on_join ''c1'' [(''token'', JStr ''Zk3'')] (run init_state [GenerateToken ''Zk3'' 0]))
     = {''c1''} \<and>
   active_rooms (run init_state
       [GenerateToken ''Zk3'' 0, Join ''c1'' [(''token'', JStr ''Zk3'')],
        Join ''c2'' [(''token'', JStr ''Zk3'')], Sweep 700]) = [] \<and>
   delivered (handle_typing ''c1'' [(''token'', JStr ''Zk3'')]
       (run init_state
         [GenerateToken ''Zk3'' 0, Join ''c1'' [(''token'', JStr ''Zk3'')],
          Join ''c2'' [(''token'', JStr ''Zk3'')], Sweep 700])) = {''c2''}"
  by (simp add: run_def init_state_def generate_token_def ROOM_TTL_def validate_token_def
      get_or_none_def lookup_token_def on_join_def getitem_def state_after_def handle_typing_def
      emit_def room_error_def delivered_def recipients_def cleanup_pass_def Let_def
      insert_Diff_if)

section \<open>What a sweeper pass removes\<close>

lemma filter_delete:
  "filter P (AList.delete k rs) = filter (\<lambda>x. fst x \<noteq> k \<and> P x) rs"
  by (induction rs) auto

lemma cleanup_loop_spec:
  "distinct (map fst rs) \<Longrightarrow> distinct ks \<Longrightarrow> set ks \<subseteq> fst ` set rs \<Longrightarrow>
   cleanup_loop now ks rs tr =
     Inr (filter (\<lambda>(t, r). t \<notin> set ks \<or> \<not> now > expiry r) rs,
          tr @ concat (map (\<lambda>t. [Emit (room_expired t), Del t])
                 (filter (\<lambda>t. \<exists>r. map_of rs t = Some r \<and> now > expiry r) ks)))"
proof (induction ks arbitrary: rs tr)
  case Nil
  then show ?case by simp
next
  case (Cons k ks)
  from Cons.prems obtain r where r: "map_of rs k = Some r"
    by (auto simp: weak_map_of_SomeI)
  have kn: "k \<notin> set ks" and dks: "distinct ks" using Cons.prems by auto
  have key: "\<And>x. x \<in> set rs \<Longrightarrow> fst x = k \<Longrightarrow> snd x = r"
    using Cons.prems(1) r by (metis map_of_is_SomeI option.inject prod.collapse)
  show ?case
  proof (cases "now > expiry r")
    case True
    let ?rs' = "AList.delete k rs"
    have d': "distinct (map fst ?rs')" using Cons.prems(1) by (simp add: distinct_delete)
    have sub: "set ks \<subseteq> fst ` set ?rs'"
      using Cons.prems kn by (force simp: AList.delete_eq)
    have same: "\<And>t. t \<in> set ks \<Longrightarrow> map_of ?rs' t = map_of rs t"
      using kn by (auto simp: delete_conv')
    have f1: "filter (\<lambda>(t, r). t \<notin> set ks \<or> \<not> now > expiry r) ?rs'
            = filter (\<lambda>(t, r). t \<notin> set (k # ks) \<or> \<not> now > expiry r) rs"
      unfolding filter_delete
      by (rule filter_cong[OF refl]) (use key True in \<open>auto split: prod.splits\<close>)
    have f2: "filter (\<lambda>t. \<exists>r. map_of ?rs' t = Some r \<and> now > expiry r) ks
            = filter (\<lambda>t. \<exists>r. map_of rs t = Some r \<and> now > expiry r) ks"
      by (rule filter_cong[OF refl]) (simp add: same)
    have "cleanup_loop now (k # ks) rs tr
            = cleanup_loop now ks ?rs' (tr @ [Emit (room_expired k), Del k])"
      using r True by simp
    also have "\<dots> = Inr (filter (\<lambda>(t, r). t \<notin> set ks \<or> \<not> now > expiry r) ?rs',
          (tr @ [Emit (room_expired k), Del k]) @ concat (map (\<lambda>t. [Emit (room_expired t), Del t])
                 (filter (\<lambda>t. \<exists>r. map_of ?rs' t = Some r \<and> now > expiry r) ks)))"
      by (rule Cons.IH[OF d' dks sub])
    also have "\<dots> = Inr (filter (\<lambda>(t, r). t \<notin> set (k # ks) \<or> \<not> now > expiry r) rs,
          tr @ concat (map (\<lambda>t. [Emit (room_expired t), Del t])
                 (filter (\<lambda>t. \<exists>r. map_of rs t = Some r \<and> now > expiry r) (k # ks))))"
      unfolding f1 f2 using r True by simp
    finally show ?thesis .
  next
    case False
    have sub: "set ks \<subseteq> fst ` set rs" using Cons.prems by simp
    have f1: "filter (\<lambda>(t, r). t \<notin> set ks \<or> \<not> now > expiry r) rs
            = filter (\<lambda>(t, r). t \<notin> set (k # ks) \<or> \<not> now > expiry r) rs"
      by (rule filter_cong[OF refl]) (use key False in \<open>auto split: prod.splits\<close>)
    have "cleanup_loop now (k # ks) rs tr = cleanup_loop now ks rs tr"
      using r False by simp
    also have "\<dots> = Inr (filter (\<lambda>(t, r). t \<notin> set ks \<or> \<not> now > expiry r) rs,
          tr @ concat (map (\<lambda>t. [Emit (room_expired t), Del t])
                 (filter (\<lambda>t. \<exists>r. map_of rs t = Some r \<and> now > expiry r) ks)))"
      by (rule Cons.IH[OF Cons.prems(1) dks sub])
    also have "\<dots> = Inr (filter (\<lambda>(t, r). t \<notin> set (k # ks) \<or> \<not> now > expiry r) rs,
          tr @ concat (map (\<lambda>t. [Emit (room_expired t), Del t])
                 (filter (\<lambda>t. \<exists>r. map_of rs t = Some r \<and> now > expiry r) (k # ks))))"
      unfolding f1 using r False by simp
    finally show ?thesis .
  qed
qed

lemma filter_keys_expired:
  assumes d: "distinct (map fst rs)"
  shows "filter (\<lambda>t. \<exists>r. map_of rs t = Some r \<and> P r) (map fst rs)
       = map fst (filter (\<lambda>(t, r). P r) rs)"
proof -
  have "filter (\<lambda>t. \<exists>r. map_of rs t = Some r \<and> P r) (map fst rs)
      = map fst (filter ((\<lambda>t. \<exists>r. map_of rs t = Some r \<and> P r) \<circ> fst) rs)"
    by (simp add: filter_map)
  also have "filter ((\<lambda>t. \<exists>r. map_of rs t = Some r \<and> P r) \<circ> fst) rs = filter (\<lambda>(t, r). P r) rs"
    by (rule filter_cong[OF refl]) (use d in \<open>auto dest: eq_key_imp_eq_value\<close>)
  finally show ?thesis .
qed

text \<open>
  C3, as the code has it. The sweeper's test is \<open>current_time > expiry\<close>: on a
  well-formed registry one pass removes exactly the rooms whose expiry is strictly before
  the clock reading and leaves every other entry as it was, in order; for each removed
  room, in registry order, it first emits \<open>room_expired\<close> to the room's group and then
  deletes the entry.
\<close>

theorem cleanup_pass_strict:
  "wf_registry rs \<longrightarrow>
     cleanup_pass now rs =
       Inr (filter (\<lambda>(t, r). now \<le> expiry r) rs,
            concat (map (\<lambda>t. [Emit (room_expired t), Del t])
                     (map fst (filter (\<lambda>(t, r). expiry r < now) rs))))"
proof
  assume "wf_registry rs"
  then have d: "distinct (map fst rs)" by (simp add: wf_registry_def)
  have s: "set (map fst rs) \<subseteq> fst ` set rs" by simp
  have a: "filter (\<lambda>(t, r). t \<notin> set (map fst rs) \<or> \<not> now > expiry r) rs
         = filter (\<lambda>(t, r). now \<le> expiry r) rs"
    by (rule filter_cong[OF refl]) force
  have b: "filter (\<lambda>t. \<exists>r. map_of rs t = Some r \<and> now > expiry r) (map fst rs)
         = map fst (filter (\<lambda>(t, r). expiry r < now) rs)"
    by (rule filter_keys_expired[OF d])
  show "cleanup_pass now rs =
       Inr (filter (\<lambda>(t, r). now \<le> expiry r) rs,
            concat (map (\<lambda>t. [Emit (room_expired t), Del t])
                     (map fst (filter (\<lambda>(t, r). expiry r < now) rs))))"
    unfolding cleanup_pass_def cleanup_loop_spec[OF d d s] a b by simp
qed

theorem cleanup_pass_strict_witness:
  "cleanup_pass 700
     [(''a'', \<lparr>expiry = 600, users = 2\<rparr>), (''b'', \<lparr>expiry = 700, users = 0\<rparr>),
      (''c'', \<lparr>expiry = 650, users = 1\<rparr>), (''d'', \<lparr>expiry = 900, users = 1\<rparr>)]
   = Inr ([(''b'', \<lparr>expiry = 700, users = 0\<rparr>), (''d'', \<lparr>expiry = 900, users = 1\<rparr>)],
          [Emit (room_expired ''a''), Del ''a'', Emit (room_expired ''c''), Del ''c''])"
  using cleanup_pass_strict [of
     "[(''a'', \<lparr>expiry = 600, users = 2\<rparr>), (''b'', \<lparr>expiry = 700, users = 0\<rparr>),
      (''c'', \<lparr>expiry = 650, users = 1\<rparr>), (''d'', \<lparr>expiry = 900, users = 1\<rparr>)]" 700]
  by (simp add: wf_registry_def)

text \<open>
  C3 as stated fails at the boundary: a room whose expiry equals the clock reading is
  neither removed nor notified by that pass.
\<close>

theorem cleanup_pass_boundary_counterexample:
  "cleanup_pass 700 [(''b'', \<lparr>expiry = 700, users = 0\<rparr>)]
     = Inr ([(''b'', \<lparr>expiry = 700, users = 0\<rparr>)], [])"
  by (simp add: cleanup_pass_def)

section \<open>Member counts\<close>

lemma on_join_nonneg:
  assumes inv: "\<forall>(t, r) \<in> set (active_rooms st). 0 \<le> users r"
  shows "\<forall>(t, r) \<in> set (active_rooms (state_after st (on_join sid data st))). 0 \<le> users r"
proof (cases "map_of data ''token''")
  case None
  then show ?thesis using inv by (simp add: on_join_def getitem_def state_after_def)
next
  case (Some tok)
  show ?thesis
  proof (cases "lookup_token (active_rooms st) tok")
    case (Inl e)
    with Some show ?thesis using inv by (simp add: on_join_def getitem_def state_after_def)
  next
    case (Inr found)
    show ?thesis
    proof (cases found)
      case None
      with Some Inr show ?thesis using inv by (simp add: on_join_def getitem_def state_after_def)
    next
      case (Some p)
      obtain t r where p: "p = (t, r)" by (cases p)
      from Inr Some p have "map_of (active_rooms st) t = Some r"
        by (auto simp: lookup_token_def split: json.splits option.splits)
      then have "(t, r) \<in> set (active_rooms st)" by (rule map_of_SomeD)
      with inv have "0 \<le> users r" by auto
      with \<open>map_of data ''token'' = Some tok\<close> Inr Some p inv show ?thesis
        by (auto simp: on_join_def getitem_def state_after_def Let_def dest!: update_set_cases)
    qed
  qed
qed

lemma on_leave_nonneg:
  assumes inv: "\<forall>(t, r) \<in> set (active_rooms st). 0 \<le> users r"
  shows "\<forall>(t, r) \<in> set (active_rooms (state_after st (on_leave sid data st))). 0 \<le> users r"
proof (cases "map_of data ''token''")
  case None
  then show ?thesis using inv by (simp add: on_leave_def getitem_def state_after_def)
next
  case (Some tok)
  show ?thesis
  proof (cases "lookup_token (active_rooms st) tok")
    case (Inl e)
    with Some show ?thesis using inv by (simp add: on_leave_def getitem_def state_after_def)
  next
    case (Inr found)
    show ?thesis
    proof (cases found)
      case None
      with Some Inr show ?thesis using inv by (simp add: on_leave_def getitem_def state_after_def)
    next
      case (Some p)
      obtain t r where p: "p = (t, r)" by (cases p)
      with \<open>map_of data ''token'' = Some tok\<close> Inr Some inv show ?thesis
        by (auto simp: on_leave_def getitem_def state_after_def Let_def dest!: update_set_cases)
    qed
  qed
qed

lemma step_nonneg:
  assumes inv: "\<forall>(t, r) \<in> set (active_rooms st). 0 \<le> users r"
  shows "\<forall>(t, r) \<in> set (active_rooms (step st ev)). 0 \<le> users r"
proof (cases ev)
  case (GenerateToken token now)
  then show ?thesis using inv
    by (auto simp: generate_token_def dest!: update_set_cases)
next
  case (Join sid data)
  then show ?thesis using on_join_nonneg[OF inv] by simp
next
  case (Leave sid data)
  then show ?thesis using on_leave_nonneg[OF inv] by simp
next
  case (Sweep now)
  show ?thesis
  proof (cases "cleanup_pass now (active_rooms st)")
    case (Inl e)
    with Sweep inv show ?thesis by simp
  next
    case (Inr p)
    obtain rs' tr' where p: "p = (rs', tr')" by (cases p)
    with Inr have "set rs' \<subseteq> set (active_rooms st)"
      unfolding cleanup_pass_def by (auto dest: cleanup_loop_subset)
    with Sweep Inr p inv show ?thesis by auto
  qed
qed (use inv in \<open>simp_all add: relay_state_same ping_check_def\<close>)

lemma run_nonneg:
  "\<forall>(t, r) \<in> set (active_rooms st). 0 \<le> users r \<Longrightarrow>
   \<forall>(t, r) \<in> set (active_rooms (run st evs)). 0 \<le> users r"
  unfolding run_def
proof (induction evs arbitrary: st)
  case Nil
  then show ?case by simp
next
  case (Cons ev evs)
  from Cons.IH[OF step_nonneg[OF Cons.prems]] show ?case by simp
qed

lemma step_entry_unchanged:
  assumes nj: "\<forall>sid d. (ev = Join sid d \<or> ev = Leave sid d) \<longrightarrow> map_of d ''token'' \<noteq> Some (JStr t)"
    and ng: "\<forall>now. ev \<noteq> GenerateToken t now"
    and after: "map_of (active_rooms (step st ev)) t = Some r'"
  shows "map_of (active_rooms st) t = Some r'"
proof (cases ev)
  case (GenerateToken token now)
  with ng have "token \<noteq> t" by auto
  with GenerateToken after show ?thesis
    by (simp add: generate_token_def update_conv')
next
  case (Join sid data)
  with nj have "map_of data ''token'' \<noteq> Some (JStr t)" by simp
  with Join after show ?thesis
    by (auto simp: on_join_def getitem_def lookup_token_def state_after_def Let_def update_conv'
        split: option.splits json.splits if_splits)
next
  case (Leave sid data)
  with nj have "map_of data ''token'' \<noteq> Some (JStr t)" by simp
  with Leave after show ?thesis
    by (auto simp: on_leave_def getitem_def lookup_token_def state_after_def Let_def update_conv'
        split: option.splits json.splits if_splits)
next
  case (Sweep now)
  show ?thesis
  proof (cases "cleanup_pass now (active_rooms st)")
    case (Inl e)
    with Sweep after show ?thesis by simp
  next
    case (Inr p)
    obtain rs' tr' where p: "p = (rs', tr')" by (cases p)
    with Inr Sweep after have "map_of rs' t = Some r'" by simp
    with Inr p show ?thesis
      unfolding cleanup_pass_def by (auto dest: cleanup_loop_map_of)
  qed
qed (use after in \<open>simp_all add: relay_state_same ping_check_def\<close>)

text \<open>
  C4: in every state reached from the empty registry by any sequence of requests, events
  and sweeper passes, every room's member count is at least 0. A join on a present token
  sets the count to the old count plus 1, a leave to the old count minus 1 but not below
  0. An event that is neither a join or leave on token \<open>t\<close> nor the creation of
  \<open>t\<close> leaves the entry of \<open>t\<close> as it was, if the entry is still there afterwards.
\<close>

theorem member_count_nonneg:
  "(\<forall>(t, r) \<in> set (active_rooms (run init_state evs)). 0 \<le> users r) \<and>
   (map_of data ''token'' = Some (JStr t) \<and> map_of (active_rooms st) t = Some r \<longrightarrow>
      map_of (active_rooms (step st (Join sid data))) t = Some (r\<lparr>users := users r + 1\<rparr>) \<and>
      map_of (active_rooms (step st (Leave sid data))) t
        = Some (r\<lparr>users := max 0 (users r - 1)\<rparr>)) \<and>
   ((\<forall>sid d. (ev = Join sid d \<or> ev = Leave sid d) \<longrightarrow> map_of d ''token'' \<noteq> Some (JStr t)) \<and>
    (\<forall>now. ev \<noteq> GenerateToken t now) \<and>
    map_of (active_rooms (step st ev)) t = Some r' \<longrightarrow>
      map_of (active_rooms st) t = Some r')"
proof (intro conjI impI)
  show "\<forall>(t, r) \<in> set (active_rooms (run init_state evs)). 0 \<le> users r"
    by (rule run_nonneg) (simp add: init_state_def)
next
  assume a: "map_of data ''token'' = Some (JStr t) \<and> map_of (active_rooms st) t = Some r"
  then show "map_of (active_rooms (step st (Join sid data))) t = Some (r\<lparr>users := users r + 1\<rparr>)"
    by (simp add: on_join_def getitem_def lookup_token_def state_after_def Let_def update_conv')
  from a show "map_of (active_rooms (step st (Leave sid data))) t
        = Some (r\<lparr>users := max 0 (users r - 1)\<rparr>)"
    by (simp add: on_leave_def getitem_def lookup_token_def state_after_def Let_def update_conv')
next
  assume "(\<forall>sid d. (ev = Join sid d \<or> ev = Leave sid d) \<longrightarrow> map_of d ''token'' \<noteq> Some (JStr t)) \<and>
    (\<forall>now. ev \<noteq> GenerateToken t now) \<and>
    map_of (active_rooms (step st ev)) t = Some r'"
  then show "map_of (active_rooms st) t = Some r'"
    using step_entry_unchanged by blast
qed

theorem member_count_nonneg_witness:
  "active_rooms (run init_state
       [GenerateToken ''Zk3'' 0, Join ''c1'' [(''token'', JStr ''Zk3'')],
        Leave ''c1'' [(''token'', JStr ''Zk3'')], Leave ''c1'' [(''token'', JStr ''Zk3'')]])
     = [(''Zk3'', \<lparr>expiry = 600, users = 0\<rparr>)] \<and>
   0 \<le> users \<lparr>expiry = 600, users = 0\<rparr> \<and>
   map_of (active_rooms (step \<lparr>active_rooms = [(''Zk3'', \<lparr>expiry = 600, users = 0\<rparr>)], groups = (\<lambda>_. {})\<rparr>
       (Join ''c1'' [(''token'', JStr ''Zk3'')]))) ''Zk3'' = Some \<lparr>expiry = 600, users = 1\<rparr> \<and>
   map_of (active_rooms (step \<lparr>active_rooms = [(''Zk3'', \<lparr>expiry = 600, users = 0\<rparr>)], groups = (\<lambda>_. {})\<rparr>
       (Leave ''c1'' [(''token'', JStr ''Zk3'')]))) ''Zk3'' = Some \<lparr>expiry = 600, users = 0\<rparr> \<and>
   map_of (active_rooms (step \<lparr>active_rooms = [(''Zk3'', \<lparr>expiry = 600, users = 0\<rparr>)], groups = (\<lambda>_. {})\<rparr>
       (Message ''c1'' [(''token'', JStr ''Zk3'')]))) ''Zk3'' = Some \<lparr>expiry = 600, users = 0\<rparr>"
  using member_count_nonneg
      [where evs = "[GenerateToken ''Zk3'' 0, Join ''c1'' [(''token'', JStr ''Zk3'')],
                     Leave ''c1'' [(''token'', JStr ''Zk3'')], Leave ''c1'' [(''token'', JStr ''Zk3'')]]"
         and data = "[(''token'', JStr ''Zk3'')]" and t = "''Zk3''"
         and st = "\<lparr>active_rooms = [(''Zk3'', \<lparr>expiry = 600, users = 0\<rparr>)], groups = (\<lambda>_. {})\<rparr>"
         and r = "\<lparr>expiry = 600, users = 0\<rparr>" and sid = "''c1''"
         and ev = "Message ''c1'' [(''token'', JStr ''Zk3'')]"
         and r' = "\<lparr>expiry = 600, users = 0\<rparr>"]
  by (simp add: run_def init_state_def generate_token_def ROOM_TTL_def
      lookup_token_def on_join_def on_leave_def handle_message_def getitem_def state_after_def
      Let_def)

section \<open>Validation\<close>

lemma step_absent:
  assumes ng: "\<forall>c. ev \<noteq> GenerateToken t c"
    and absent: "map_of (active_rooms st) t = None"
  shows "map_of (active_rooms (step st ev)) t = None"
proof (cases "map_of (active_rooms (step st ev)) t")
  case None
  then show ?thesis .
next
  case (Some r')
  have "map_of (active_rooms st) t = Some r'"
  proof (cases ev)
    case (Join sid data)
    with Some absent show ?thesis
      by (auto simp: on_join_def getitem_def lookup_token_def state_after_def Let_def update_conv'
          split: option.splits json.splits if_splits)
  next
    case (Leave sid data)
    with Some absent show ?thesis
      by (auto simp: on_leave_def getitem_def lookup_token_def state_after_def Let_def update_conv'
          split: option.splits json.splits if_splits)
  next
    case (GenerateToken token now)
    with ng have "token \<noteq> t" by auto
    with GenerateToken Some show ?thesis by (simp add: generate_token_def update_conv')
  next
    case (Sweep now)
    show ?thesis
    proof (cases "cleanup_pass now (active_rooms st)")
      case (Inl e)
      with Sweep Some show ?thesis by simp
    next
      case (Inr p)
      obtain rs' tr' where p: "p = (rs', tr')" by (cases p)
      with Inr Sweep Some have "map_of rs' t = Some r'" by simp
      with Inr p show ?thesis
        unfolding cleanup_pass_def by (auto dest: cleanup_loop_map_of)
    qed
  qed (use Some in \<open>simp_all add: relay_state_same ping_check_def\<close>)
  with absent show ?thesis by simp
qed

lemma run_absent:
  "\<forall>c. GenerateToken t c \<notin> set evs \<Longrightarrow> map_of (active_rooms st) t = None \<Longrightarrow>
   map_of (active_rooms (run st evs)) t = None"
  unfolding run_def
proof (induction evs arbitrary: st)
  case Nil
  then show ?case by simp
next
  case (Cons ev evs)
  have "map_of (active_rooms (step st ev)) t = None"
    by (rule step_absent) (use Cons.prems in auto)
  with Cons.IH[of "step st ev"] Cons.prems(1) show ?case by simp
qed

lemma validate_token_str:
  "map_of data ''token'' = Some (JStr t) \<Longrightarrow>
   validate_token data now rs =
     (case map_of rs t of
        None \<Rightarrow> Inr (JObj [(''valid'', JBool False)])
      | Some r \<Rightarrow>
          if now < expiry r
          then Inr (JObj [(''valid'', JBool True), (''remaining'', JFloat (expiry r - now))])
          else Inr (JObj [(''valid'', JBool False)]))"
  by (simp add: validate_token_def get_or_none_def lookup_token_def Let_def split: option.splits)

text \<open>
  C5: for a string token \<open>t\<close>, validate answers \<open>{valid: true, remaining: x}\<close>
  exactly when \<open>t\<close> is in the registry with its expiry after the clock reading, and then
  \<open>x\<close> is the expiry minus the clock reading, which is positive; otherwise it answers
  \<open>{valid: false}\<close> with no \<open>remaining\<close> field. Right after creation at time
  \<open>now\<close>, validation at a time \<open>now'\<close> less than the TTL later answers valid with
  \<open>600 - (now' - now)\<close> remaining. A token that no request has created is answered
  \<open>{valid: false}\<close> in every reachable registry.
\<close>

theorem validate_token_characterised:
  "map_of data ''token'' = Some (JStr t) \<longrightarrow>
     ((\<exists>x. validate_token data now rs
             = Inr (JObj [(''valid'', JBool True), (''remaining'', JFloat x)]))
        \<longleftrightarrow> (\<exists>r. map_of rs t = Some r \<and> now < expiry r)) \<and>
     (map_of rs t = Some r \<and> now < expiry r \<longrightarrow>
        validate_token data now rs
          = Inr (JObj [(''valid'', JBool True), (''remaining'', JFloat (expiry r - now))]) \<and>
        0 < expiry r - now) \<and>
     ((\<nexists>r. map_of rs t = Some r \<and> now < expiry r) \<longrightarrow>
        validate_token data now rs = Inr (JObj [(''valid'', JBool False)]) \<and>
        map_of [(''valid'', JBool False)] ''remaining'' = None) \<and>
     (now \<le> now' \<and> now' < now + 600 \<longrightarrow>
        validate_token data now' (fst (generate_token t now rs))
          = Inr (JObj [(''valid'', JBool True), (''remaining'', JFloat (600 - (now' - now)))])) \<and>
     ((\<forall>c. GenerateToken t c \<notin> set evs) \<longrightarrow>
        validate_token data now (active_rooms (run init_state evs))
          = Inr (JObj [(''valid'', JBool False)]))"
proof (intro impI conjI)
  assume tok: "map_of data ''token'' = Some (JStr t)"
  note v = validate_token_str[OF tok]
  show "(\<exists>x. validate_token data now rs
             = Inr (JObj [(''valid'', JBool True), (''remaining'', JFloat x)]))
        \<longleftrightarrow> (\<exists>r. map_of rs t = Some r \<and> now < expiry r)"
    by (cases "map_of rs t") (simp_all add: v)
  show "validate_token data now rs
          = Inr (JObj [(''valid'', JBool True), (''remaining'', JFloat (expiry r - now))])"
    if "map_of rs t = Some r \<and> now < expiry r"
    using that by (simp add: v)
  show "0 < expiry r - now" if "map_of rs t = Some r \<and> now < expiry r"
    using that by simp
  show "validate_token data now rs = Inr (JObj [(''valid'', JBool False)])"
    if "\<nexists>r. map_of rs t = Some r \<and> now < expiry r"
    using that by (cases "map_of rs t") (simp_all add: v)
  show "map_of [(''valid'', JBool False)] ''remaining'' = None"
    by simp
  show "validate_token data now' (fst (generate_token t now rs))
          = Inr (JObj [(''valid'', JBool True), (''remaining'', JFloat (600 - (now' - now)))])"
    if "now \<le> now' \<and> now' < now + 600"
    using that
    by (simp add: validate_token_str[OF tok] generate_token_def update_conv' ROOM_TTL_def
        algebra_simps)
  show "validate_token data now (active_rooms (run init_state evs))
          = Inr (JObj [(''valid'', JBool False)])"
    if "\<forall>c. GenerateToken t c \<notin> set evs"
  proof -
    have "map_of (active_rooms (run init_state evs)) t = None"
      by (rule run_absent[OF that]) (simp add: init_state_def)
    then show ?thesis by (simp add: validate_token_str[OF tok])
  qed
qed

theorem validate_token_characterised_witness:
  "validate_token [(''token'', JStr ''Zk3'')] 100 [(''Zk3'', \<lparr>expiry = 600, users = 1\<rparr>)]
     = Inr (JObj [(''valid'', JBool True), (''remaining'', JFloat 500)]) \<and>
   validate_token [(''token'', JStr ''Zk3'')] 600 [(''Zk3'', \<lparr>expiry = 600, users = 1\<rparr>)]
     = Inr (JObj [(''valid'', JBool False)]) \<and>
   validate_token [(''token'', JStr ''Zk3'')] 130 (fst (generate_token ''Zk3'' 100 []))
     = Inr (JObj [(''valid'', JBool True), (''remaining'', JFloat 570)]) \<and>
   validate_token [(''token'', JStr ''Zk3'')] 5
       (active_rooms (run init_state
          [GenerateToken ''abc'' 0, Join ''c1'' [(''token'', JStr ''Zk3'')]]))
     = Inr (JObj [(''valid'', JBool False)])"
  using validate_token_characterised
      [where data = "[(''token'', JStr ''Zk3'')]" and t = "''Zk3''" and now = 100
         and rs = "[(''Zk3'', \<lparr>expiry = 600, users = 1\<rparr>)]"
         and r = "\<lparr>expiry = 600, users = 1\<rparr>" and now' = 130 and evs = "[]"]
    validate_token_characterised
      [where data = "[(''token'', JStr ''Zk3'')]" and t = "''Zk3''" and now = 600
         and rs = "[(''Zk3'', \<lparr>expiry = 600, users = 1\<rparr>)]"
         and r = "\<lparr>expiry = 600, users = 1\<rparr>" and now' = 700 and evs = "[]"]
    validate_token_characterised
      [where data = "[(''token'', JStr ''Zk3'')]" and t = "''Zk3''" and now = 100
         and rs = "[]" and r = "\<lparr>expiry = 600, users = 1\<rparr>" and now' = 130 and evs = "[]"]
    validate_token_characterised
      [where data = "[(''token'', JStr ''Zk3'')]" and t = "''Zk3''" and now = 5
         and rs = "[]" and r = "\<lparr>expiry = 600, users = 1\<rparr>" and now' = 5
         and evs = "[GenerateToken ''abc'' 0, Join ''c1'' [(''token'', JStr ''Zk3'')]]"]
  by simp

section \<open>Delivery scope\<close>

text \<open>
  What a delivery confirmation does on the payloads it is meant for: with a non-empty
  string as \<open>sender_socket_id\<close> and a \<open>msg_id\<close> it makes the one emission
  \<open>msg_delivered {msg_id}\<close> with that string as room, which reaches the members of the
  group of that name; without a \<open>sender_socket_id\<close> it emits nothing.
\<close>

lemma confirm_delivery_string_id:
  assumes "map_of data ''sender_socket_id'' = Some (JStr s)" and "s \<noteq> []"
    and "map_of data ''msg_id'' = Some m"
  shows "confirm_delivery sid data st =
           Inr (st, [\<lparr>ev_name = ''msg_delivered'', ev_data = JObj [(''msg_id'', m)],
                      ev_room = JStr s, skip_sid = None\<rparr>])"
    and "delivered (confirm_delivery sid data st) = groups st s"
proof -
  show out: "confirm_delivery sid data st =
           Inr (st, [\<lparr>ev_name = ''msg_delivered'', ev_data = JObj [(''msg_id'', m)],
                      ev_room = JStr s, skip_sid = None\<rparr>])"
    using assms
    by (simp add: confirm_delivery_def get_or_none_def getitem_def emit_def room_error_def)
  show "delivered (confirm_delivery sid data st) = groups st s"
    using assms(2) by (simp add: out delivered_def recipients_def)
qed

lemma confirm_delivery_no_id:
  "map_of data ''sender_socket_id'' = None \<Longrightarrow> confirm_delivery sid data st = Inr (st, [])"
  by (simp add: confirm_delivery_def get_or_none_def)

text \<open>
  C6 asks that \<open>msg_delivered\<close> goes to exactly the one connection named by
  \<open>sender_socket_id\<close> and is never broadcast to a room, as the handler's docstring says
  (\<open>forwards 'msg_delivered' ONLY to the original sender\<close>). The handler passes the
  client's value to \<open>emit\<close> as a room name, unchecked. Three clients connect, a room
  \<open>Zk3\<close> is created and \<open>c1\<close> and \<open>c2\<close> join it; \<open>c3\<close>, which is not a member,
  then sends a confirmation whose \<open>sender_socket_id\<close> is the room's token: the event is
  broadcast to the room, to \<open>c1\<close> and \<open>c2\<close>.
\<close>

theorem confirm_delivery_room_broadcast:
  "confirm_delivery ''c3'' [(''sender_socket_id'', JStr ''Zk3''), (''msg_id'', JInt 7)]
      (run init_state
         [Connect ''c1'', Connect ''c2'', Connect ''c3'', GenerateToken ''Zk3'' 0,
          Join ''c1'' [(''token'', JStr ''Zk3'')], Join ''c2'' [(''token'', JStr ''Zk3'')]])
     = Inr (run init_state
              [Connect ''c1'', Connect ''c2'', Connect ''c3'', GenerateToken ''Zk3'' 0,
               Join ''c1'' [(''token'', JStr ''Zk3'')], Join ''c2'' [(''token'', JStr ''Zk3'')]],
            [\<lparr>ev_name = ''msg_delivered'', ev_data = JObj [(''msg_id'', JInt 7)],
              ev_room = JStr ''Zk3'', skip_sid = None\<rparr>]) \<and>
   groups (run init_state
         [Connect ''c1'', Connect ''c2'', Connect ''c3'', GenerateToken ''Zk3'' 0,
          Join ''c1'' [(''token'', JStr ''Zk3'')], Join ''c2'' [(''token'', JStr ''Zk3'')]]) ''Zk3''
     = {''c1'', ''c2''} \<and>
   delivered
     (confirm_delivery ''c3'' [(''sender_socket_id'', JStr ''Zk3''), (''msg_id'', JInt 7)]
        (run init_state
           [Connect ''c1'', Connect ''c2'', Connect ''c3'', GenerateToken ''Zk3'' 0,
            Join ''c1'' [(''token'', JStr ''Zk3'')], Join ''c2'' [(''token'', JStr ''Zk3'')]]))
     = {''c1'', ''c2''}"
  by (simp add: run_def init_state_def generate_token_def ROOM_TTL_def handler_defs
      state_after_def delivered_def recipients_def Let_def insert_commute)

text \<open>
  What typing, stop_typing and share_metrics do: each makes at most one emission, with the
  payload's token as room and the sender excluded, so the sender is never among the
  recipients; for a token that is a non-empty string the recipients are the members of the
  group of that name other than the sender.
\<close>

lemma typing_never_to_sender:
  "sid \<notin> delivered (handle_typing sid data st)"
  "sid \<notin> delivered (handle_stop_typing sid data st)"
  "sid \<notin> delivered (share_metrics sid data st)"
  by (simp_all add: handle_typing_def handle_stop_typing_def share_metrics_def emit_def
      delivered_def recipients_def split: sum.splits option.splits)

lemma typing_string_token:
  assumes "map_of data ''token'' = Some (JStr t)" and "t \<noteq> []"
  shows "delivered (handle_typing sid data st) = groups st t - {sid}"
    and "delivered (handle_stop_typing sid data st) = groups st t - {sid}"
    and "map_of data ''ping'' = Some p \<Longrightarrow>
         delivered (share_metrics sid data st) = groups st t - {sid}"
  using assms
  by (simp_all add: handle_typing_def handle_stop_typing_def share_metrics_def getitem_def
      emit_def room_error_def delivered_def recipients_def)

text \<open>
  C7 asks that the broadcast goes to the other members of the token's room. The three
  handlers make no check of the token, unlike join, leave and message, and an empty
  string as room makes the transport broadcast to the whole namespace. Three clients
  connect; \<open>c1\<close> and \<open>c2\<close> join room \<open>Zk3\<close> and \<open>c3\<close> joins another room
  \<open>Qq7\<close>. A typing, stop_typing or share_metrics event of \<open>c1\<close> whose token is the
  empty string, which names no room and no group, is delivered to \<open>c2\<close> and to \<open>c3\<close>.
\<close>

theorem typing_empty_token_broadcast:
  "groups (run init_state
       [Connect ''c1'', Connect ''c2'', Connect ''c3'',
        GenerateToken ''Zk3'' 0, GenerateToken ''Qq7'' 0,
        Join ''c1'' [(''token'', JStr ''Zk3'')], Join ''c2'' [(''token'', JStr ''Zk3'')],
        Join ''c3'' [(''token'', JStr ''Qq7'')]]) [] = {} \<and>
   delivered (handle_typing ''c1'' [(''token'', JStr [])]
     (run init_state
       [Connect ''c1'', Connect ''c2'', Connect ''c3'',
        GenerateToken ''Zk3'' 0, GenerateToken ''Qq7'' 0,
        Join ''c1'' [(''token'', JStr ''Zk3'')], Join ''c2'' [(''token'', JStr ''Zk3'')],
        Join ''c3'' [(''token'', JStr ''Qq7'')]])) = {''c2'', ''c3''} \<and>
   delivered (handle_stop_typing ''c1'' [(''token'', JStr [])]
     (run init_state
       [Connect ''c1'', Connect ''c2'', Connect ''c3'',
        GenerateToken ''Zk3'' 0, GenerateToken ''Qq7'' 0,
        Join ''c1'' [(''token'', JStr ''Zk3'')], Join ''c2'' [(''token'', JStr ''Zk3'')],
        Join ''c3'' [(''token'', JStr ''Qq7'')]])) = {''c2'', ''c3''} \<and>
   delivered (share_metrics ''c1'' [(''token'', JStr []), (''ping'', JInt 20)]
     (run init_state
       [Connect ''c1'', Connect ''c2'', Connect ''c3'',
        GenerateToken ''Zk3'' 0, GenerateToken ''Qq7'' 0,
        Join ''c1'' [(''token'', JStr ''Zk3'')], Join ''c2'' [(''token'', JStr ''Zk3'')],
        Join ''c3'' [(''token'', JStr ''Qq7'')]])) = {''c2'', ''c3''}"
proof -
  let ?st = "run init_state
       [Connect ''c1'', Connect ''c2'', Connect ''c3'',
        GenerateToken ''Zk3'' 0, GenerateToken ''Qq7'' 0,
        Join ''c1'' [(''token'', JStr ''Zk3'')], Join ''c2'' [(''token'', JStr ''Zk3'')],
        Join ''c3'' [(''token'', JStr ''Qq7'')]]"
  have g: "groups ?st =
      (\<lambda>_. {})(''c1'' := {''c1''}, ''c2'' := {''c2''}, ''c3'' := {''c3''},
         ''Zk3'' := {''c2'', ''c1''}, ''Qq7'' := {''c3''})"
    by (simp add: run_def init_state_def generate_token_def ROOM_TTL_def on_join_def
        getitem_def lookup_token_def state_after_def Let_def)
  have e: "everyone (groups ?st) - {''c1''} = {''c2'', ''c3''}"
    unfolding g everyone_def by (auto split: if_splits)
  have "groups ?st [] = {}"
    unfolding g by simp
  moreover have "delivered (handle_typing ''c1'' [(''token'', JStr [])] ?st) = {''c2'', ''c3''}"
    using e
    by (simp add: handle_typing_def getitem_def emit_def room_error_def delivered_def
        recipients_def)
  moreover have "delivered (handle_stop_typing ''c1'' [(''token'', JStr [])] ?st)
      = {''c2'', ''c3''}"
    using e
    by (simp add: handle_stop_typing_def getitem_def emit_def room_error_def delivered_def
        recipients_def)
  moreover have "delivered (share_metrics ''c1'' [(''token'', JStr []), (''ping'', JInt 20)] ?st)
      = {''c2'', ''c3''}"
    using e
    by (simp add: share_metrics_def getitem_def emit_def room_error_def delivered_def
        recipients_def)
  ultimately show ?thesis by (intro conjI)
qed

section \<open>Frame: handlers that leave the registry alone\<close>

text \<open>
  C9: message, typing, stop_typing, confirm_delivery, ping_check and share_metrics leave
  the registry as it was, entries, fields and keys; in fact they return the whole state
  unchanged, whether they raise or not.
\<close>

theorem relay_events_keep_registry:
  "state_after st (handle_message sid data st) = st \<and>
   state_after st (handle_typing sid data st) = st \<and>
   state_after st (handle_stop_typing sid data st) = st \<and>
   state_after st (confirm_delivery sid data st) = st \<and>
   state_after st (share_metrics sid data st) = st \<and>
   fst (ping_check now st) = st \<and>
   active_rooms (step st (Message sid data)) = active_rooms st \<and>
   active_rooms (step st (Typing sid data)) = active_rooms st \<and>
   active_rooms (step st (StopTyping sid data)) = active_rooms st \<and>
   active_rooms (step st (ConfirmDelivery sid data)) = active_rooms st \<and>
   active_rooms (step st (PingCheck now)) = active_rooms st \<and>
   active_rooms (step st (ShareMetrics sid data)) = active_rooms st"
  by (simp add: relay_state_same ping_check_def)

section \<open>Missing payload fields\<close>

text \<open>
  C8 asks that a payload without a required field is ignored without an error. The
  handlers subscript the payload (\<open>data['token']\<close>, \<open>data['ping']\<close>,
  \<open>data['msg_id']\<close>), which raises \<open>KeyError\<close> on these payloads.
\<close>

theorem missing_field_raises:
  "on_join ''c1'' [] init_state = Inl (KeyError ''token'') \<and>
   on_leave ''c1'' [] init_state = Inl (KeyError ''token'') \<and>
   handle_message ''c1'' [(''msg'', JStr ''hi'')] init_state = Inl (KeyError ''token'') \<and>
   handle_typing ''c1'' [] init_state = Inl (KeyError ''token'') \<and>
   handle_stop_typing ''c1'' [] init_state = Inl (KeyError ''token'') \<and>
   share_metrics ''c1'' [(''ping'', JInt 20)] init_state = Inl (KeyError ''token'') \<and>
   share_metrics ''c1'' [(''token'', JStr ''abc'')] init_state = Inl (KeyError ''ping'') \<and>
   confirm_delivery ''c1'' [(''sender_socket_id'', JStr ''c2'')] init_state
     = Inl (KeyError ''msg_id'')"
  by (simp add: handler_defs)

text \<open>
  C10: a validate request whose JSON object has no \<open>token\<close> key is answered
  \<open>{valid: false}\<close> without an error, which is also the answer for a token that is
  not in the registry.
\<close>

theorem validate_token_missing_key:
  "map_of data ''token'' = None \<longrightarrow>
     validate_token data now rs = Inr (JObj [(''valid'', JBool False)]) \<and>
     (map_of rs t = None \<longrightarrow>
        validate_token data now rs = validate_token [(''token'', JStr t)] now rs)"
  by (simp add: validate_token_def get_or_none_def lookup_token_def)

theorem validate_token_missing_key_witness:
  "validate_token [(''user'', JStr ''bob'')] 5 [(''Zk3'', \<lparr>expiry = 600, users = 1\<rparr>)]
     = Inr (JObj [(''valid'', JBool False)]) \<and>
   validate_token [(''user'', JStr ''bob'')] 5 [(''Zk3'', \<lparr>expiry = 600, users = 1\<rparr>)]
     = validate_token [(''token'', JStr ''abc'')] 5 [(''Zk3'', \<lparr>expiry = 600, users = 1\<rparr>)]"
  using validate_token_missing_key
    [of "[(''user'', JStr ''bob'')]" 5 "[(''Zk3'', \<lparr>expiry = 600, users = 1\<rparr>)]" "''abc''"]
  by (simp add: validate_token_def get_or_none_def lookup_token_def)

end
